theory Spec2Isabelle
  imports Main
begin

section \<open>The in-memory users service\<close>

text \<open>
  The service keeps one package-level slice \<^verbatim>\<open>users\<close> and serves two routes,
  \<^verbatim>\<open>GET /users\<close> and \<^verbatim>\<open>POST /users\<close>. The slice is the only state: every
  function below takes it as an argument and returns the slice it leaves behind.
  Go strings are byte sequences compared byte by byte, which is \<open>string\<close> with \<open>=\<close>.
  \<^verbatim>\<open>ID\<close> is Go's \<^verbatim>\<open>int\<close>; the only arithmetic on it is \<^verbatim>\<open>len(users) + 1\<close>, which
  cannot leave the 64-bit range (a slice of 40-byte structs never has that many
  elements), so it is modelled as \<open>int\<close>.
\<close>

subsection \<open>Data\<close>

record User =
  ID :: int
  Name :: string
  Email :: string

text \<open>
  What a handler leaves in the \<^verbatim>\<open>http.ResponseWriter\<close>: the status code and what was
  written as the body. \<open>JsonUsers us\<close> is the slice handed to the JSON encoder.
\<close>

datatype content = Empty | Text string | JsonUsers "User list"

record response =
  status :: nat
  content :: content

text \<open>
  A request as the router sees it, together with the outcome of the one library call
  its handler makes on it: for \<^verbatim>\<open>GET /users\<close> the error \<^verbatim>\<open>Encode\<close> returns (\<open>None\<close>
  is \<^verbatim>\<open>nil\<close>), for \<^verbatim>\<open>POST /users\<close> the result of \<^verbatim>\<open>Decode\<close> on the body (\<open>Inl\<close> the
  error text of malformed JSON, \<open>Inr\<close> the decoded \<^verbatim>\<open>User\<close>, absent fields at their
  zero values).
\<close>

datatype request = GET_users "string option" | POST_users "string + User"

subsection \<open>Handlers\<close>

text \<open>\<^verbatim>\<open>http.Error\<close> writes the status code and the message followed by a newline.\<close>

definition httpError :: "string \<Rightarrow> nat \<Rightarrow> response" where
  "httpError msg code = \<lparr>status = code, content = Text (msg @ [CHR 0x0A])\<rparr>"

text \<open>
  \<^verbatim>\<open>getUsersHandler\<close>: encode \<^verbatim>\<open>users\<close> into the response; if the encoder reports an
  error answer 500. Writing the body already commits status 200, which the final
  \<^verbatim>\<open>WriteHeader(http.StatusOK)\<close> repeats. The slice is only read.
\<close>

definition getUsersHandler :: "string option \<Rightarrow> User list \<Rightarrow> response \<times> User list" where
  "getUsersHandler encodeErr users =
     (case encodeErr of
        Some err \<Rightarrow> (httpError err 500, users)
      | None \<Rightarrow> (\<lparr>status = 200, content = JsonUsers users\<rparr>, users))"

text \<open>
  The \<^verbatim>\<open>for _, user := range users\<close> loop of \<^verbatim>\<open>insertUser\<close>: \<open>True\<close> when the
  \<^verbatim>\<open>return\<close> inside the loop is taken.
\<close>

fun emailExists :: "string \<Rightarrow> User list \<Rightarrow> bool" where
  "emailExists email [] = False"
| "emailExists email (user # rest) =
     (if Email user = email then True else emailExists email rest)"

text \<open>
  \<^verbatim>\<open>insertUser\<close> returns the error (\<open>None\<close> is \<^verbatim>\<open>nil\<close>, \<open>Some msg\<close> is
  \<^verbatim>\<open>errors.New(msg)\<close>) and the slice after the call.
\<close>

definition insertUser :: "User \<Rightarrow> User list \<Rightarrow> string option \<times> User list" where
  "insertUser u users =
     (if Email u = [] then (Some ''email is required'', users)
      else if Name u = [] then (Some ''name is required'', users)
      else if emailExists (Email u) users then (Some ''email already exists'', users)
      else (None, users @ [u]))"

text \<open>The struct literal \<^verbatim>\<open>u\<close> that \<^verbatim>\<open>createUserHandler\<close> builds from the payload.\<close>

definition newUser :: "User \<Rightarrow> User list \<Rightarrow> User" where
  "newUser payload users =
     \<lparr>ID = int (length users) + 1, Name = Name payload, Email = Email payload\<rparr>"

definition createUserHandler :: "string + User \<Rightarrow> User list \<Rightarrow> response \<times> User list" where
  "createUserHandler decoded users =
     (case decoded of
        Inl err \<Rightarrow> (httpError err 400, users)
      | Inr payload \<Rightarrow>
          (case insertUser (newUser payload users) users of
             (Some err, users') \<Rightarrow> (httpError err 400, users')
           | (None, users') \<Rightarrow> (\<lparr>status = 201, content = Empty\<rparr>, users')))"

text \<open>The routes registered in \<^verbatim>\<open>main\<close>.\<close>

fun serve :: "request \<Rightarrow> User list \<Rightarrow> response \<times> User list" where
  "serve (GET_users encodeErr) users = getUsersHandler encodeErr users"
| "serve (POST_users decoded) users = createUserHandler decoded users"

subsection \<open>Runs of the service\<close>

text \<open>The slice after serving a list of requests one after the other.\<close>

fun run :: "request list \<Rightarrow> User list \<Rightarrow> User list" where
  "run [] users = users"
| "run (r # rs) users = run rs (snd (serve r users))"

text \<open>
  The records built by the requests that \<^verbatim>\<open>insertUser\<close> accepted, in the order of the
  calls: the history of successful creations of a run.
\<close>

fun created :: "request list \<Rightarrow> User list \<Rightarrow> User list" where
  "created [] users = []"
| "created (GET_users encodeErr # rs) users = created rs users"
| "created (POST_users (Inl err) # rs) users = created rs users"
| "created (POST_users (Inr payload) # rs) users =
     (case insertUser (newUser payload users) users of
        (Some err, users') \<Rightarrow> created rs users'
      | (None, users') \<Rightarrow> newUser payload users # created rs users')"

text \<open>The records a response carries back to the client.\<close>

definition returned :: "response \<Rightarrow> User list" where
  "returned resp = (case content resp of JsonUsers us \<Rightarrow> us | _ \<Rightarrow> [])"

text \<open>
  The bytes of a response body. The encoding of one \<^verbatim>\<open>User\<close> object is the JSON
  library's and is a parameter; \<^verbatim>\<open>Encode\<close> frames the elements as an array and ends
  the value with a newline. The slice starts as \<^verbatim>\<open>[]User{}\<close> and only grows by
  \<^verbatim>\<open>append\<close>, so it is never \<^verbatim>\<open>nil\<close> and the array form always applies.
\<close>

fun commaSep :: "string list \<Rightarrow> string" where
  "commaSep [] = []"
| "commaSep [s] = s"
| "commaSep (s # t # ss) = s @ '','' @ commaSep (t # ss)"

definition wire :: "(User \<Rightarrow> string) \<Rightarrow> content \<Rightarrow> string" where
  "wire enc c =
     (case c of
        Empty \<Rightarrow> []
      | Text s \<Rightarrow> s
      | JsonUsers us \<Rightarrow> ''['' @ commaSep (map enc us) @ '']'' @ [CHR 0x0A])"

section \<open>Properties\<close>

subsection \<open>The duplicate check\<close>

lemma emailExists_iff: "emailExists e us \<longleftrightarrow> e \<in> set (map Email us)"
  by (induction us) auto

lemma insertUser_error:
  "fst (insertUser u us) =
     (if Email u = [] then Some ''email is required''
      else if Name u = [] then Some ''name is required''
      else if Email u \<in> set (map Email us) then Some ''email already exists''
      else None)"
  by (simp add: insertUser_def emailExists_iff)

lemma insertUser_state:
  "snd (insertUser u us) = (if fst (insertUser u us) = None then us @ [u] else us)"
  by (simp add: insertUser_def)

subsection \<open>What one POST does\<close>

lemma createUserHandler_decoded:
  "createUserHandler (Inr p) us =
     (case fst (insertUser (newUser p us) us) of
        Some err \<Rightarrow> (httpError err 400, us)
      | None \<Rightarrow> (\<lparr>status = 201, content = Empty\<rparr>, us @ [newUser p us]))"
  by (simp add: createUserHandler_def insertUser_def)

lemma newUser_fields [simp]:
  "ID (newUser p us) = int (length us) + 1"
  "Name (newUser p us) = Name p"
  "Email (newUser p us) = Email p"
  by (simp_all add: newUser_def)

text \<open>
  C2. Validation order and raises-iff. \<^verbatim>\<open>insertUser\<close> returns an error exactly when the
  candidate's email is empty, or its name is empty, or its email equals the email of a
  stored record. The checks run in that order and the first that fails gives the
  message: "email is required", "name is required", "email already exists". The handler
  answers 400 with that message, and 201 when none fails.
\<close>

theorem create_fails_iff:
  "(fst (insertUser u us) \<noteq> None \<longleftrightarrow>
      Email u = [] \<or> Name u = [] \<or> (\<exists>x \<in> set us. Email x = Email u))
   \<and> fst (insertUser u us) =
      (if Email u = [] then Some ''email is required''
       else if Name u = [] then Some ''name is required''
       else if (\<exists>x \<in> set us. Email x = Email u) then Some ''email already exists''
       else None)
   \<and> createUserHandler (Inr p) us =
      (if Email p = [] then (httpError ''email is required'' 400, us)
       else if Name p = [] then (httpError ''name is required'' 400, us)
       else if (\<exists>x \<in> set us. Email x = Email p) then (httpError ''email already exists'' 400, us)
       else (\<lparr>status = 201, content = Empty\<rparr>, us @ [newUser p us]))"
proof -
  have mem: "\<And>e. e \<in> set (map Email us) \<longleftrightarrow> (\<exists>x \<in> set us. Email x = e)"
    by auto
  have err: "\<And>v. fst (insertUser v us) =
      (if Email v = [] then Some ''email is required''
       else if Name v = [] then Some ''name is required''
       else if (\<exists>x \<in> set us. Email x = Email v) then Some ''email already exists''
       else None)"
    unfolding insertUser_error mem ..
  have iff: "fst (insertUser u us) \<noteq> None \<longleftrightarrow>
      Email u = [] \<or> Name u = [] \<or> (\<exists>x \<in> set us. Email x = Email u)"
    unfolding err by simp
  have h: "createUserHandler (Inr p) us =
      (if Email p = [] then (httpError ''email is required'' 400, us)
       else if Name p = [] then (httpError ''name is required'' 400, us)
       else if (\<exists>x \<in> set us. Email x = Email p) then (httpError ''email already exists'' 400, us)
       else (\<lparr>status = 201, content = Empty\<rparr>, us @ [newUser p us]))"
    unfolding createUserHandler_decoded err by simp
  from iff err [of u] h show ?thesis by blast
qed

theorem create_fails_iff_witness:
  "fst (insertUser \<lparr>ID = 2, Name = ''B'', Email = ''x@y.com''\<rparr>
         [\<lparr>ID = 1, Name = ''A'', Email = ''x@y.com''\<rparr>]) = Some ''email already exists''
   \<and> fst (insertUser \<lparr>ID = 1, Name = [], Email = []\<rparr> []) = Some ''email is required''
   \<and> createUserHandler (Inr \<lparr>ID = 0, Name = [], Email = ''a@b.com''\<rparr>) []
       = (httpError ''name is required'' 400, [])"
  using create_fails_iff [of "\<lparr>ID = 2, Name = ''B'', Email = ''x@y.com''\<rparr>"
          "[\<lparr>ID = 1, Name = ''A'', Email = ''x@y.com''\<rparr>]" "\<lparr>ID = 0, Name = [], Email = ''a@b.com''\<rparr>"]
        create_fails_iff [of "\<lparr>ID = 1, Name = [], Email = []\<rparr>" "[]" "\<lparr>ID = 0, Name = [], Email = ''a@b.com''\<rparr>"]
  by simp

text \<open>
  C3. Atomicity on failure. Whenever \<^verbatim>\<open>insertUser\<close> returns an error, and whenever
  the handler answers anything but 201, the slice after the call is the slice before
  it: same records, same order.
\<close>

theorem create_failure_atomic:
  "(fst (insertUser u us) \<noteq> None \<longrightarrow> snd (insertUser u us) = us)
   \<and> (status (fst (createUserHandler d us)) \<noteq> 201 \<longrightarrow> snd (createUserHandler d us) = us)"
proof -
  have a: "fst (insertUser u us) \<noteq> None \<longrightarrow> snd (insertUser u us) = us"
    by (simp add: insertUser_state)
  have b: "status (fst (createUserHandler d us)) \<noteq> 201 \<longrightarrow> snd (createUserHandler d us) = us"
  proof (cases d)
    case (Inl err)
    then show ?thesis by (simp add: createUserHandler_def)
  next
    case (Inr p)
    then show ?thesis
      by (simp add: createUserHandler_decoded split: option.splits)
  qed
  from a b show ?thesis ..
qed

theorem create_failure_atomic_witness:
  "fst (insertUser \<lparr>ID = 1, Name = [], Email = ''a@b.com''\<rparr> []) \<noteq> None
   \<and> snd (insertUser \<lparr>ID = 1, Name = [], Email = ''a@b.com''\<rparr> []) = []
   \<and> status (fst (createUserHandler (Inr \<lparr>ID = 0, Name = ''B'', Email = ''x@y.com''\<rparr>)
        [\<lparr>ID = 1, Name = ''A'', Email = ''x@y.com''\<rparr>])) \<noteq> 201
   \<and> snd (createUserHandler (Inr \<lparr>ID = 0, Name = ''B'', Email = ''x@y.com''\<rparr>)
        [\<lparr>ID = 1, Name = ''A'', Email = ''x@y.com''\<rparr>]) = [\<lparr>ID = 1, Name = ''A'', Email = ''x@y.com''\<rparr>]"
  using create_failure_atomic [of "\<lparr>ID = 1, Name = [], Email = ''a@b.com''\<rparr>" "[]"
          "Inr \<lparr>ID = 0, Name = ''B'', Email = ''x@y.com''\<rparr>"]
        create_failure_atomic [of "\<lparr>ID = 1, Name = [], Email = ''a@b.com''\<rparr>"
          "[\<lparr>ID = 1, Name = ''A'', Email = ''x@y.com''\<rparr>]"
          "Inr \<lparr>ID = 0, Name = ''B'', Email = ''x@y.com''\<rparr>"]
  by (simp add: insertUser_def createUserHandler_def newUser_def httpError_def)

text \<open>
  C9. No trimming of required fields. The two required-field checks compare with the
  empty string only: "email is required" is returned exactly when the email is \<open>''''\<close>,
  "name is required" exactly when the email is not empty and the name is \<open>''''\<close>, and a
  candidate whose name and email are both non-empty, whitespace included, gets neither.
\<close>

theorem required_fields_not_trimmed:
  "(fst (insertUser u us) = Some ''email is required'' \<longleftrightarrow> Email u = [])
   \<and> (fst (insertUser u us) = Some ''name is required'' \<longleftrightarrow> Email u \<noteq> [] \<and> Name u = [])
   \<and> (Email u \<noteq> [] \<and> Name u \<noteq> [] \<longrightarrow>
        fst (insertUser u us) \<noteq> Some ''email is required''
        \<and> fst (insertUser u us) \<noteq> Some ''name is required'')"
  by (simp add: insertUser_error)

theorem required_fields_not_trimmed_witness:
  "Email \<lparr>ID = 1, Name = '' '', Email = '' ''\<rparr> \<noteq> []
   \<and> Name \<lparr>ID = 1, Name = '' '', Email = '' ''\<rparr> \<noteq> []
   \<and> fst (insertUser \<lparr>ID = 1, Name = '' '', Email = '' ''\<rparr> []) \<noteq> Some ''email is required''
   \<and> fst (insertUser \<lparr>ID = 1, Name = '' '', Email = '' ''\<rparr> []) \<noteq> Some ''name is required''
   \<and> insertUser \<lparr>ID = 1, Name = '' '', Email = '' ''\<rparr> []
       = (None, [\<lparr>ID = 1, Name = '' '', Email = '' ''\<rparr>])"
  using required_fields_not_trimmed [of "\<lparr>ID = 1, Name = '' '', Email = '' ''\<rparr>" "[]"]
  by (simp add: insertUser_def)

text \<open>
  C8. List on the empty registry. With a working encoder \<^verbatim>\<open>getUsersHandler\<close> on the
  empty slice answers 200 with the empty sequence, whose bytes are \<^verbatim>\<open>[]\<close> and the
  encoder's closing newline; and whatever the encoder reports and whatever the slice
  holds, the handler leaves the slice as it was.
\<close>

theorem list_empty_registry:
  "getUsersHandler None [] = (\<lparr>status = 200, content = JsonUsers []\<rparr>, [])
   \<and> returned (fst (getUsersHandler None [])) = []
   \<and> wire enc (content (fst (getUsersHandler None []))) = ''[]'' @ [CHR 0x0A]
   \<and> snd (getUsersHandler encodeErr us) = us
   \<and> run [GET_users encodeErr] us = us"
  by (simp add: getUsersHandler_def returned_def wire_def split: option.split)

text \<open>
  C4, as the claim states it, fails: it has \<^verbatim>\<open>Create\<close> return the stored record. On
  the first scenario of the specification the record is stored with id 1, but
  \<^verbatim>\<open>insertUser\<close> returns only \<^verbatim>\<open>nil\<close> and the handler answers 201 with no body.
\<close>

theorem create_returns_record_counterexample:
  "snd (createUserHandler (Inr \<lparr>ID = 7, Name = ''John Doe'', Email = ''john@example.com''\<rparr>) [])
     = [\<lparr>ID = 1, Name = ''John Doe'', Email = ''john@example.com''\<rparr>]
   \<and> fst (insertUser \<lparr>ID = 1, Name = ''John Doe'', Email = ''john@example.com''\<rparr> []) = None
   \<and> fst (createUserHandler (Inr \<lparr>ID = 7, Name = ''John Doe'', Email = ''john@example.com''\<rparr>) [])
     = \<lparr>status = 201, content = Empty\<rparr>
   \<and> returned (fst (createUserHandler
        (Inr \<lparr>ID = 7, Name = ''John Doe'', Email = ''john@example.com''\<rparr>) []))
     \<noteq> [\<lparr>ID = 1, Name = ''John Doe'', Email = ''john@example.com''\<rparr>]"
  by (simp add: createUserHandler_def insertUser_def newUser_def returned_def)

text \<open>
  C4, amended. For every slice and every decoded candidate that passes validation,
  \<^verbatim>\<open>createUserHandler\<close> appends at the end of the slice the record with
  id = (number of stored records) + 1 and the candidate's name and email, and reports
  success only: \<^verbatim>\<open>insertUser\<close> returns \<^verbatim>\<open>nil\<close>, the answer is 201 with an empty body
  and carries no record. The id of the candidate plays no part: changing it changes
  nothing.
\<close>

theorem create_success:
  assumes "Email p \<noteq> []" and "Name p \<noteq> []" and "\<forall>x \<in> set us. Email x \<noteq> Email p"
  shows "createUserHandler (Inr p) us =
           (\<lparr>status = 201, content = Empty\<rparr>,
            us @ [\<lparr>ID = int (length us) + 1, Name = Name p, Email = Email p\<rparr>])
         \<and> insertUser (newUser p us) us = (None, us @ [newUser p us])
         \<and> returned (fst (createUserHandler (Inr p) us)) = []
         \<and> createUserHandler (Inr (p\<lparr>ID := k\<rparr>)) us = createUserHandler (Inr p) us"
proof -
  from assms(3) have fresh: "\<not> emailExists (Email p) us"
    by (auto simp add: emailExists_iff)
  with assms(1,2) have ins: "insertUser (newUser p us) us = (None, us @ [newUser p us])"
    by (simp add: insertUser_def)
  then have h: "createUserHandler (Inr p) us =
           (\<lparr>status = 201, content = Empty\<rparr>,
            us @ [\<lparr>ID = int (length us) + 1, Name = Name p, Email = Email p\<rparr>])"
    by (simp add: createUserHandler_def newUser_def)
  have same: "newUser (p\<lparr>ID := k\<rparr>) us = newUser p us"
    by (simp add: newUser_def)
  have k: "createUserHandler (Inr (p\<lparr>ID := k\<rparr>)) us = createUserHandler (Inr p) us"
    by (simp add: createUserHandler_def same)
  from h have r: "returned (fst (createUserHandler (Inr p) us)) = []"
    by (simp add: returned_def)
  from h ins r k show ?thesis by blast
qed

theorem create_success_witness:
  "createUserHandler (Inr \<lparr>ID = 7, Name = ''B'', Email = ''b@y.com''\<rparr>)
       [\<lparr>ID = 1, Name = ''A'', Email = ''x@y.com''\<rparr>]
     = (\<lparr>status = 201, content = Empty\<rparr>,
        [\<lparr>ID = 1, Name = ''A'', Email = ''x@y.com''\<rparr>, \<lparr>ID = 2, Name = ''B'', Email = ''b@y.com''\<rparr>])
   \<and> createUserHandler (Inr \<lparr>ID = 0, Name = ''B'', Email = ''b@y.com''\<rparr>)
       [\<lparr>ID = 1, Name = ''A'', Email = ''x@y.com''\<rparr>]
     = createUserHandler (Inr \<lparr>ID = 7, Name = ''B'', Email = ''b@y.com''\<rparr>)
       [\<lparr>ID = 1, Name = ''A'', Email = ''x@y.com''\<rparr>]"
  using create_success [of "\<lparr>ID = 7, Name = ''B'', Email = ''b@y.com''\<rparr>"
          "[\<lparr>ID = 1, Name = ''A'', Email = ''x@y.com''\<rparr>]" 0]
  by simp

subsection \<open>Runs: the slice is the history of accepted records\<close>

lemma serve_state:
  "snd (serve r us) = us \<or>
   (\<exists>p. r = POST_users (Inr p) \<and> fst (insertUser (newUser p us) us) = None
        \<and> snd (serve r us) = us @ [newUser p us])"
proof (cases r)
  case (GET_users e)
  then show ?thesis by (simp add: getUsersHandler_def split: option.split)
next
  case (POST_users d)
  show ?thesis
  proof (cases d)
    case (Inl err)
    with POST_users show ?thesis by (simp add: createUserHandler_def)
  next
    case (Inr p)
    with POST_users show ?thesis
      by (simp add: createUserHandler_decoded split: option.split)
  qed
qed

lemma run_created: "run reqs us = us @ created reqs us"
proof (induction reqs arbitrary: us)
  case Nil
  show ?case by simp
next
  case (Cons r rs)
  show ?case
  proof (cases r)
    case (GET_users e)
    then show ?thesis
      using Cons.IH [of us] by (simp add: getUsersHandler_def split: option.split)
  next
    case (POST_users d)
    show ?thesis
    proof (cases d)
      case (Inl err)
      with POST_users show ?thesis
        using Cons.IH [of us] by (simp add: createUserHandler_def)
    next
      case (Inr p)
      show ?thesis
      proof (cases "fst (insertUser (newUser p us) us)")
        case None
        then have "insertUser (newUser p us) us = (None, us @ [newUser p us])"
          by (simp add: prod_eq_iff insertUser_state)
        with POST_users Inr show ?thesis
          using Cons.IH [of "us @ [newUser p us]"] by (simp add: createUserHandler_def)
      next
        case (Some e)
        then have "insertUser (newUser p us) us = (Some e, us)"
          by (simp add: prod_eq_iff insertUser_state)
        with POST_users Inr show ?thesis
          using Cons.IH [of us] by (simp add: createUserHandler_def)
      qed
    qed
  qed
qed

lemma serve_distinct_emails:
  assumes "distinct (map Email us)"
  shows "distinct (map Email (snd (serve r us)))"
proof -
  from serve_state [of r us] show ?thesis
  proof
    assume "snd (serve r us) = us"
    with assms show ?thesis by simp
  next
    assume "\<exists>p. r = POST_users (Inr p) \<and> fst (insertUser (newUser p us) us) = None
        \<and> snd (serve r us) = us @ [newUser p us]"
    then obtain p where ok: "fst (insertUser (newUser p us) us) = None"
      and st: "snd (serve r us) = us @ [newUser p us]" by blast
    from ok have "Email p \<notin> set (map Email us)"
      by (simp add: insertUser_error split: if_splits)
    with assms st show ?thesis by simp
  qed
qed

lemma run_distinct_emails:
  "distinct (map Email us) \<Longrightarrow> distinct (map Email (run reqs us))"
  by (induction reqs arbitrary: us) (simp_all add: serve_distinct_emails)

lemma serve_ids:
  assumes "map ID us = map int [1 ..< Suc (length us)]"
  shows "map ID (snd (serve r us)) = map int [1 ..< Suc (length (snd (serve r us)))]"
proof -
  from serve_state [of r us] show ?thesis
  proof
    assume "snd (serve r us) = us"
    with assms show ?thesis by simp
  next
    assume "\<exists>p. r = POST_users (Inr p) \<and> fst (insertUser (newUser p us) us) = None
        \<and> snd (serve r us) = us @ [newUser p us]"
    then obtain p where st: "snd (serve r us) = us @ [newUser p us]" by blast
    with assms show ?thesis by simp
  qed
qed

lemma run_ids:
  "map ID us = map int [1 ..< Suc (length us)] \<Longrightarrow>
   map ID (run reqs us) = map int [1 ..< Suc (length (run reqs us))]"
  by (induction reqs arbitrary: us) (simp_all add: serve_ids)

lemma ids_increasing: "sorted_wrt (<) (map int [1 ..< n])"
  by (simp add: sorted_wrt_map)

lemma run_keeps_email:
  assumes "e \<in> set (map Email us)"
  shows "filter (\<lambda>u. Email u = e) (run reqs us) = filter (\<lambda>u. Email u = e) us"
  using assms
proof (induction reqs arbitrary: us)
  case Nil
  show ?case by simp
next
  case (Cons r rs)
  from serve_state [of r us] show ?case
  proof
    assume "snd (serve r us) = us"
    with Cons show ?thesis by simp
  next
    assume "\<exists>p. r = POST_users (Inr p) \<and> fst (insertUser (newUser p us) us) = None
        \<and> snd (serve r us) = us @ [newUser p us]"
    then obtain p where ok: "fst (insertUser (newUser p us) us) = None"
      and st: "snd (serve r us) = us @ [newUser p us]" by blast
    from ok have "Email p \<notin> set (map Email us)"
      by (simp add: insertUser_error split: if_splits)
    with Cons.prems have ne: "Email p \<noteq> e" by auto
    from Cons.prems have "e \<in> set (map Email (us @ [newUser p us]))" by simp
    from Cons.IH [OF this] st ne show ?thesis by simp
  qed
qed

subsection \<open>Invariants of every run from the empty registry\<close>

lemma ids_distinct: "distinct (map int [1 ..< n])"
  by (simp add: distinct_map)

lemma ids_nth: "i < n \<Longrightarrow> map int [1 ..< Suc n] ! i = int i + 1"
  by (simp del: upt_Suc)

text \<open>
  C1. Email uniqueness. Whatever requests are served starting from the empty slice,
  the stored emails are pairwise distinct (as byte strings); and one request served on
  any slice with pairwise distinct emails leaves a slice with pairwise distinct emails.
\<close>

theorem email_uniqueness:
  "distinct (map Email (run reqs []))
   \<and> (distinct (map Email us) \<longrightarrow> distinct (map Email (snd (serve r us))))"
proof -
  have "distinct (map Email (run reqs []))"
    by (rule run_distinct_emails) simp
  then show ?thesis
    by (simp add: serve_distinct_emails)
qed

theorem email_uniqueness_witness:
  "distinct (map Email (run [POST_users (Inr \<lparr>ID = 0, Name = ''A'', Email = ''x@y.com''\<rparr>),
                             POST_users (Inr \<lparr>ID = 0, Name = ''B'', Email = ''x@y.com''\<rparr>),
                             POST_users (Inr \<lparr>ID = 0, Name = ''C'', Email = ''c@y.com''\<rparr>)] []))
   \<and> distinct (map Email [\<lparr>ID = 1, Name = ''A'', Email = ''x@y.com''\<rparr>])
   \<and> distinct (map Email (snd (serve (POST_users (Inr \<lparr>ID = 0, Name = ''A'', Email = ''X@y.com''\<rparr>))
                                  [\<lparr>ID = 1, Name = ''A'', Email = ''x@y.com''\<rparr>])))
   \<and> snd (serve (POST_users (Inr \<lparr>ID = 0, Name = ''A'', Email = ''X@y.com''\<rparr>))
            [\<lparr>ID = 1, Name = ''A'', Email = ''x@y.com''\<rparr>])
      = [\<lparr>ID = 1, Name = ''A'', Email = ''x@y.com''\<rparr>, \<lparr>ID = 2, Name = ''A'', Email = ''X@y.com''\<rparr>]"
  using email_uniqueness [of
      "[POST_users (Inr \<lparr>ID = 0, Name = ''A'', Email = ''x@y.com''\<rparr>),
        POST_users (Inr \<lparr>ID = 0, Name = ''B'', Email = ''x@y.com''\<rparr>),
        POST_users (Inr \<lparr>ID = 0, Name = ''C'', Email = ''c@y.com''\<rparr>)]"
      "[\<lparr>ID = 1, Name = ''A'', Email = ''x@y.com''\<rparr>]"
      "POST_users (Inr \<lparr>ID = 0, Name = ''A'', Email = ''X@y.com''\<rparr>)"]
  by (simp add: createUserHandler_def insertUser_def newUser_def)

text \<open>
  C5. Id monotonic uniqueness. In every run from the empty slice, the ids given to the
  accepted records, read in the order of the calls, are strictly increasing: each is
  greater than every id given before it. So no two are equal and none is given twice.
  They are the ids of the stored records, none of which is ever changed.
\<close>

theorem id_monotonic_unique:
  "sorted_wrt (<) (map ID (created reqs []))
   \<and> distinct (map ID (created reqs []))
   \<and> map ID (run reqs []) = map ID (created reqs [])"
proof -
  have eq: "run reqs [] = created reqs []"
    by (simp add: run_created)
  have ids: "map ID (run reqs []) = map int [1 ..< Suc (length (run reqs []))]"
    by (rule run_ids) simp
  then have inc: "sorted_wrt (<) (map ID (run reqs []))"
    by (simp only: ids_increasing)
  from ids have "distinct (map ID (run reqs []))"
    by (simp only: ids_distinct)
  with inc eq show ?thesis by simp
qed

theorem id_monotonic_unique_witness:
  "map ID (created [POST_users (Inr \<lparr>ID = 9, Name = ''A'', Email = ''a@y.com''\<rparr>),
                    POST_users (Inr \<lparr>ID = 9, Name = ''B'', Email = ''a@y.com''\<rparr>),
                    POST_users (Inr \<lparr>ID = 9, Name = ''B'', Email = ''b@y.com''\<rparr>),
                    POST_users (Inr \<lparr>ID = 9, Name = ''C'', Email = ''c@y.com''\<rparr>)] []) = [1, 2, 3]
   \<and> sorted_wrt (<) [1, 2, 3 :: int] \<and> distinct [1, 2, 3 :: int]"
  using id_monotonic_unique [of
      "[POST_users (Inr \<lparr>ID = 9, Name = ''A'', Email = ''a@y.com''\<rparr>),
        POST_users (Inr \<lparr>ID = 9, Name = ''B'', Email = ''a@y.com''\<rparr>),
        POST_users (Inr \<lparr>ID = 9, Name = ''B'', Email = ''b@y.com''\<rparr>),
        POST_users (Inr \<lparr>ID = 9, Name = ''C'', Email = ''c@y.com''\<rparr>)]"]
  by (simp add: insertUser_def newUser_def)

text \<open>
  C6. Order preservation. After any run from the empty slice, the slice is exactly the
  list of accepted records in the order of the calls that created them, and
  \<^verbatim>\<open>getUsersHandler\<close> answers with that list: nothing reordered, left out or repeated.
\<close>

theorem list_in_creation_order:
  "run reqs [] = created reqs []
   \<and> fst (getUsersHandler None (run reqs []))
       = \<lparr>status = 200, content = JsonUsers (created reqs [])\<rparr>
   \<and> returned (fst (getUsersHandler None (run reqs []))) = created reqs []"
  by (simp add: run_created getUsersHandler_def returned_def)

theorem list_in_creation_order_witness:
  "returned (fst (getUsersHandler None
      (run [POST_users (Inr \<lparr>ID = 0, Name = ''B'', Email = ''b@y.com''\<rparr>),
            GET_users None,
            POST_users (Inl ''unexpected EOF''),
            POST_users (Inr \<lparr>ID = 0, Name = ''A'', Email = ''a@y.com''\<rparr>)] [])))
   = [\<lparr>ID = 1, Name = ''B'', Email = ''b@y.com''\<rparr>, \<lparr>ID = 2, Name = ''A'', Email = ''a@y.com''\<rparr>]"
proof -
  have c: "created [POST_users (Inr \<lparr>ID = 0, Name = ''B'', Email = ''b@y.com''\<rparr>),
                    GET_users None,
                    POST_users (Inl ''unexpected EOF''),
                    POST_users (Inr \<lparr>ID = 0, Name = ''A'', Email = ''a@y.com''\<rparr>)] []
           = [\<lparr>ID = 1, Name = ''B'', Email = ''b@y.com''\<rparr>,
              \<lparr>ID = 2, Name = ''A'', Email = ''a@y.com''\<rparr>]"
    by (simp add: insertUser_def newUser_def)
  show ?thesis
    using list_in_creation_order [of
      "[POST_users (Inr \<lparr>ID = 0, Name = ''B'', Email = ''b@y.com''\<rparr>),
        GET_users None,
        POST_users (Inl ''unexpected EOF''),
        POST_users (Inr \<lparr>ID = 0, Name = ''A'', Email = ''a@y.com''\<rparr>)]", unfolded c]
    by (rule conjunct2 [THEN conjunct2])
qed

text \<open>
  C10. Ids are dense and positional. After any run from the empty slice the stored ids
  are 1, 2, ..., n in this order: the record at index \<open>i\<close> (from 0) has id \<open>i + 1\<close>.
\<close>

theorem ids_dense_positional:
  "map ID (run reqs []) = map int [1 ..< Suc (length (run reqs []))]
   \<and> (i < length (run reqs []) \<longrightarrow> ID (run reqs [] ! i) = int i + 1)"
proof -
  have m: "map ID (run reqs []) = map int [1 ..< Suc (length (run reqs []))]"
    by (rule run_ids) simp
  have "ID (run reqs [] ! i) = int i + 1" if "i < length (run reqs [])"
  proof -
    from that have "ID (run reqs [] ! i) = map ID (run reqs []) ! i" by simp
    also have "\<dots> = map int [1 ..< Suc (length (run reqs []))] ! i"
      by (simp only: m [symmetric])
    also from that have "\<dots> = int i + 1" by (rule ids_nth)
    finally show ?thesis .
  qed
  with m show ?thesis by blast
qed

theorem ids_dense_positional_witness:
  "(1::nat) < length (run [POST_users (Inr \<lparr>ID = 5, Name = ''A'', Email = ''a@y.com''\<rparr>),
                           POST_users (Inr \<lparr>ID = 5, Name = ''B'', Email = ''b@y.com''\<rparr>),
                           POST_users (Inr \<lparr>ID = 5, Name = ''C'', Email = ''c@y.com''\<rparr>)] [])
   \<and> ID (run [POST_users (Inr \<lparr>ID = 5, Name = ''A'', Email = ''a@y.com''\<rparr>),
               POST_users (Inr \<lparr>ID = 5, Name = ''B'', Email = ''b@y.com''\<rparr>),
               POST_users (Inr \<lparr>ID = 5, Name = ''C'', Email = ''c@y.com''\<rparr>)] [] ! 1) = 2
   \<and> map ID (run [POST_users (Inr \<lparr>ID = 5, Name = ''A'', Email = ''a@y.com''\<rparr>),
                   POST_users (Inr \<lparr>ID = 5, Name = ''B'', Email = ''b@y.com''\<rparr>),
                   POST_users (Inr \<lparr>ID = 5, Name = ''C'', Email = ''c@y.com''\<rparr>)] []) = [1, 2, 3]"
proof -
  have r: "run [POST_users (Inr \<lparr>ID = 5, Name = ''A'', Email = ''a@y.com''\<rparr>),
                POST_users (Inr \<lparr>ID = 5, Name = ''B'', Email = ''b@y.com''\<rparr>),
                POST_users (Inr \<lparr>ID = 5, Name = ''C'', Email = ''c@y.com''\<rparr>)] []
           = [\<lparr>ID = 1, Name = ''A'', Email = ''a@y.com''\<rparr>,
              \<lparr>ID = 2, Name = ''B'', Email = ''b@y.com''\<rparr>,
              \<lparr>ID = 3, Name = ''C'', Email = ''c@y.com''\<rparr>]"
    by (simp add: createUserHandler_def insertUser_def newUser_def)
  show ?thesis
    unfolding r
    using ids_dense_positional [of
      "[POST_users (Inr \<lparr>ID = 5, Name = ''A'', Email = ''a@y.com''\<rparr>),
        POST_users (Inr \<lparr>ID = 5, Name = ''B'', Email = ''b@y.com''\<rparr>),
        POST_users (Inr \<lparr>ID = 5, Name = ''C'', Email = ''c@y.com''\<rparr>)]" 1, unfolded r]
    by simp
qed

text \<open>
  C7. List reflects creates. On any slice, so on every reachable one, once
  \<^verbatim>\<open>createUserHandler\<close> has accepted a candidate (status 201), \<^verbatim>\<open>getUsersHandler\<close>
  called right after it, or after any further requests, answers with a list holding
  exactly one record whose name and email are the candidate's.
\<close>

theorem list_reflects_create:
  assumes "status (fst (createUserHandler (Inr p) us)) = 201"
  shows "length (filter (\<lambda>u. Name u = Name p \<and> Email u = Email p)
           (returned (fst (getUsersHandler None
              (run reqs (snd (createUserHandler (Inr p) us))))))) = 1"
proof -
  let ?us' = "us @ [newUser p us]"
  from assms have ok: "fst (insertUser (newUser p us) us) = None"
    by (simp add: createUserHandler_decoded httpError_def split: option.splits)
  then have st: "snd (createUserHandler (Inr p) us) = ?us'"
    by (simp add: createUserHandler_decoded)
  from ok have fresh: "Email p \<notin> set (map Email us)"
    by (simp add: insertUser_error split: if_splits)
  then have none: "filter (\<lambda>u. Email u = Email p) us = []"
    by (force simp add: filter_empty_conv image_iff)
  have "Email p \<in> set (map Email ?us')" by simp
  then have "filter (\<lambda>u. Email u = Email p) (run reqs ?us')
               = filter (\<lambda>u. Email u = Email p) ?us'"
    by (rule run_keeps_email)
  also have "\<dots> = [newUser p us]"
    by (simp add: none)
  finally have one: "filter (\<lambda>u. Email u = Email p) (run reqs ?us') = [newUser p us]" .
  have "filter (\<lambda>u. Name u = Name p \<and> Email u = Email p) (run reqs ?us')
          = filter (\<lambda>u. Name u = Name p) (filter (\<lambda>u. Email u = Email p) (run reqs ?us'))"
    by (simp add: conj_commute)
  also have "\<dots> = [newUser p us]"
    by (simp add: one)
  finally show ?thesis
    by (simp add: st getUsersHandler_def returned_def)
qed

theorem list_reflects_create_witness:
  "status (fst (createUserHandler (Inr \<lparr>ID = 0, Name = ''John Doe'', Email = ''john@example.com''\<rparr>) [])) = 201
   \<and> length (filter (\<lambda>u. Name u = ''John Doe'' \<and> Email u = ''john@example.com'')
        (returned (fst (getUsersHandler None
           (run [POST_users (Inr \<lparr>ID = 0, Name = ''John Doe'', Email = ''john@example.com''\<rparr>),
                 POST_users (Inr \<lparr>ID = 0, Name = ''Jane'', Email = ''jane@example.com''\<rparr>)]
              (snd (createUserHandler
                 (Inr \<lparr>ID = 0, Name = ''John Doe'', Email = ''john@example.com''\<rparr>) []))))))) = 1"
proof -
  have s: "status (fst (createUserHandler
             (Inr \<lparr>ID = 0, Name = ''John Doe'', Email = ''john@example.com''\<rparr>) [])) = 201"
    by (simp add: createUserHandler_def insertUser_def newUser_def)
  from s list_reflects_create [OF s,
      of "[POST_users (Inr \<lparr>ID = 0, Name = ''John Doe'', Email = ''john@example.com''\<rparr>),
           POST_users (Inr \<lparr>ID = 0, Name = ''Jane'', Email = ''jane@example.com''\<rparr>)]"]
  show ?thesis by simp
qed

end
